theory Spec2Isabelle
  imports Complex_Main "HOL-Library.Word"
begin

section \<open>The wind measurement list (windmeasurementlist.h, windmeasurementlist.cpp)\<close>

text \<open>
  Modelling conventions.
  \<^item> A \<open>double\<close> is a \<open>real\<close>: arithmetic on it is exact (no rounding error, no NaN, no
    infinity). The binary64 value that the code computes for an expression can differ from
    the real one in the last place, and an integer rounded from it can differ by one where
    the real value lies next to a half. The statements on the weights of \<open>getWind\<close>
    therefore speak of the integers that the code derives (\<open>a_round\<close>, \<open>t_round\<close>, the
    \<open>unsigned int\<close> weights) and take the rounded factors as they are; none of them gives
    the components of the returned vector as an exact value.
  \<^item> \<open>int\<close> and \<open>long\<close> values that the source never lets wrap in a defined way (the
    quality, the stored time, the eviction score) are unbounded \<open>int\<close>; signed overflow
    and an out-of-range cast from \<open>double\<close> are undefined in the source and lie outside
    the model.
  \<^item> The \<open>unsigned int\<close> weights of \<open>getWind\<close> are \<open>32 word\<close>: they wrap modulo
    \<open>2 ^ 32\<close>, and the cast \<open>(int)total_quality\<close> reads the word as two's complement.
  \<^item> \<open>measurementlist\<close> is an array of pointers: a slot is \<open>Some m\<close> when it points to
    a live sample \<open>m\<close> and \<open>None\<close> otherwise (never assigned, or deleted). Reading through
    a dead slot or indexing outside the array is undefined in the source; the model
    returns \<open>None\<close> for the whole operation there.
\<close>

subsection \<open>Data\<close>

text \<open>
  Modelled from the spec: \<open>Vector\<close> is declared in vector.h, which is not among the
  sources; the spec describes it as a 2D wind vector (x, y). The first component is
  \<open>x\<close>, the second is \<open>y\<close>.
\<close>

type_synonym Vector = "real \<times> real"

record WindMeasurement =
  vector :: Vector
  quality :: int
  time :: int
  altitude :: real

definition MAX_MEASUREMENTS :: nat where
  "MAX_MEASUREMENTS = 200"

record WindMeasurementList =
  measurementlist :: "WindMeasurement option list"
  nummeasurementlist :: nat

text \<open>The constructor sets the count to 0; no slot of the array points to a sample yet.\<close>

definition WindMeasurementList_new :: WindMeasurementList where
  "WindMeasurementList_new =
     \<lparr>measurementlist = replicate MAX_MEASUREMENTS None, nummeasurementlist = 0\<rparr>"

text \<open>Reading \<open>measurementlist[i]\<close> and following the pointer.\<close>

definition deref :: "WindMeasurementList \<Rightarrow> nat \<Rightarrow> WindMeasurement option" where
  "deref s i = (if i < length (measurementlist s) then measurementlist s ! i else None)"

subsection \<open>Conversions and helpers of the C++ code\<close>

text \<open>The casts \<open>(int)d\<close> and \<open>(long)d\<close> of a double: truncation towards zero.\<close>

definition int_of_double :: "real \<Rightarrow> int" where
  "int_of_double d = (if 0 \<le> d then \<lfloor>d\<rfloor> else \<lceil>d\<rceil>)"

text \<open>Division of C++ on \<open>int\<close>: the quotient is truncated towards zero.\<close>

definition int_div :: "int \<Rightarrow> int \<Rightarrow> int" where
  "int_div a b = sgn a * sgn b * (\<bar>a\<bar> div \<bar>b\<bar>)"

text \<open>
  Modelled from the spec: \<open>iround\<close> is declared \<open>extern int iround(double)\<close> in
  windmeasurementlist.cpp and its body is not among the sources; the spec says that each
  factor is rounded to the nearest integer. A value exactly half way between two integers
  goes to the larger one.
\<close>

definition iround :: "real \<Rightarrow> int" where
  "iround d = round d"

subsection \<open>getWind\<close>

definition REL_FACTOR_QUALITY :: int where "REL_FACTOR_QUALITY = 100"
definition REL_FACTOR_ALTITUDE :: int where "REL_FACTOR_ALTITUDE = 100"
definition REL_FACTOR_TIME :: int where "REL_FACTOR_TIME = 200"
definition TIME_RANGE :: int where "TIME_RANGE = 36"
definition altRange :: int where "altRange = 1000"
definition timeRange :: int where "timeRange = TIME_RANGE * 100"

text \<open>\<open>altdiff= (alt - m->altitude)*1.0/altRange\<close>\<close>

definition altdiff :: "real \<Rightarrow> WindMeasurement \<Rightarrow> real" where
  "altdiff alt m = (alt - altitude m) * 1.0 / real_of_int altRange"

text \<open>\<open>timediff= fabs((double)(now - m->time)/timeRange)\<close>\<close>

definition timediff :: "int \<Rightarrow> WindMeasurement \<Rightarrow> real" where
  "timediff now m = \<bar>real_of_int (now - time m) / real_of_int timeRange\<bar>"

text \<open>The condition of the \<open>if\<close> in the loop: \<open>(fabs(altdiff)< 1.0) && (timediff < 1.0)\<close>.\<close>

definition in_window :: "int \<Rightarrow> real \<Rightarrow> WindMeasurement \<Rightarrow> bool" where
  "in_window now alt m \<longleftrightarrow> \<bar>altdiff alt m\<bar> < 1.0 \<and> timediff now m < 1.0"

text \<open>
  \<open>q_quality = m->quality* REL_FACTOR_QUALITY / 5\<close>: computed on \<open>int\<close>, then converted
  to \<open>unsigned int\<close>.
\<close>

definition q_quality :: "WindMeasurement \<Rightarrow> 32 word" where
  "q_quality m = word_of_int (int_div (quality m * REL_FACTOR_QUALITY) 5)"

text \<open>
  \<open>a_quality = iround(((2.0/(altdiff*altdiff+1.0))-1.0) * REL_FACTOR_ALTITUDE)\<close>:
  \<open>a_round\<close> is the \<open>int\<close> that \<open>iround\<close> returns, \<open>a_quality\<close> its conversion to
  \<open>unsigned int\<close>. The argument of \<open>iround\<close> is evaluated on exact reals here; the code
  evaluates it in binary64, so for an altitude difference at which the real value is
  within rounding error of a half the \<open>int\<close> of the code can be the neighbour of
  \<open>a_round\<close>. The same holds for \<open>t_round\<close> below.
\<close>

definition a_round :: "real \<Rightarrow> WindMeasurement \<Rightarrow> int" where
  "a_round alt m =
     iround (((2.0 / (altdiff alt m * altdiff alt m + 1.0)) - 1.0)
             * real_of_int REL_FACTOR_ALTITUDE)"

definition a_quality :: "real \<Rightarrow> WindMeasurement \<Rightarrow> 32 word" where
  "a_quality alt m = word_of_int (a_round alt m)"

text \<open>
  \<open>t_quality = iround(k*(1.0-timediff)/(timediff*timediff+k) * REL_FACTOR_TIME)\<close> with
  \<open>k = 0.0025\<close>: \<open>t_round\<close> is the \<open>int\<close> that \<open>iround\<close> returns, \<open>t_quality\<close> its
  conversion to \<open>unsigned int\<close>.
\<close>

definition t_round :: "int \<Rightarrow> WindMeasurement \<Rightarrow> int" where
  "t_round now m =
     (let k = 0.0025 in
      iround (k * (1.0 - timediff now m) / (timediff now m * timediff now m + k)
              * real_of_int REL_FACTOR_TIME))"

definition t_quality :: "int \<Rightarrow> WindMeasurement \<Rightarrow> 32 word" where
  "t_quality now m = word_of_int (t_round now m)"

text \<open>\<open>quality= q_quality * (a_quality * t_quality)\<close>, on \<open>unsigned int\<close>.\<close>

definition sample_quality :: "int \<Rightarrow> real \<Rightarrow> WindMeasurement \<Rightarrow> 32 word" where
  "sample_quality now alt m = q_quality m * (a_quality alt m * t_quality now m)"

text \<open>
  The state of the loop is \<open>(result.x, result.y, total_quality)\<close>. One pass of the loop
  body for the sample \<open>m\<close>:
\<close>

type_synonym wind_acc = "real \<times> real \<times> 32 word"

definition getWind_body :: "int \<Rightarrow> real \<Rightarrow> WindMeasurement \<Rightarrow> wind_acc \<Rightarrow> wind_acc" where
  "getWind_body now alt m acc =
     (case acc of (rx, ry, total_quality) \<Rightarrow>
        if in_window now alt m then
          (rx + fst (vector m) * real (unat (sample_quality now alt m)),
           ry + snd (vector m) * real (unat (sample_quality now alt m)),
           total_quality + sample_quality now alt m)
        else (rx, ry, total_quality))"

text \<open>\<open>for(uint i=0;i< nummeasurementlist; i++)\<close>\<close>

function getWind_loop ::
  "WindMeasurementList \<Rightarrow> int \<Rightarrow> real \<Rightarrow> nat \<Rightarrow> wind_acc \<Rightarrow> wind_acc option" where
  "getWind_loop s now alt i acc =
     (if i < nummeasurementlist s then
        (case deref s i of
           None \<Rightarrow> None
         | Some m \<Rightarrow> getWind_loop s now alt (i + 1) (getWind_body now alt m acc))
      else Some acc)"
  by pat_completeness auto
termination
  by (relation "measure (\<lambda>(s, now, alt, i, acc). nummeasurementlist s - i)") auto

declare getWind_loop.simps [simp del]

text \<open>
  After the loop: \<open>if (total_quality>0) { *found = true; result.x=result.x/(int)total_quality;
  result.y=result.y/(int)total_quality; } return result;\<close>. The result is the returned
  vector together with the flag written to \<open>*found\<close>. The flag and the divisor are
  integers and are as in the code; the two quotients are exact reals, of which the
  binary64 quotients of the code are roundings.
\<close>

definition getWind_finish :: "wind_acc \<Rightarrow> Vector \<times> bool" where
  "getWind_finish acc =
     (case acc of (rx, ry, total_quality) \<Rightarrow>
        if total_quality > 0 then
          ((rx / real_of_int (sint total_quality), ry / real_of_int (sint total_quality)), True)
        else ((rx, ry), False))"

definition getWind :: "WindMeasurementList \<Rightarrow> real \<Rightarrow> real \<Rightarrow> (Vector \<times> bool) option" where
  "getWind s Time alt =
     (let now = int_of_double Time in
      case getWind_loop s now alt 0 (0, 0, 0) of
        None \<Rightarrow> None
      | Some acc \<Rightarrow> Some (getWind_finish acc))"

subsection \<open>getLeastImportantItem\<close>

text \<open>
  \<open>score=600*(6-measurementlist[i]->quality);
  score+= (int)(Time - (double)measurementlist[i]->time);\<close>
\<close>

definition score :: "real \<Rightarrow> WindMeasurement \<Rightarrow> int" where
  "score Time m = 600 * (6 - quality m) + int_of_double (Time - real_of_int (time m))"

text \<open>
  \<open>for (int i=founditem;i>=0;i--)\<close>: the first argument after the time is \<open>i + 1\<close>, so
  that the loop ends at 0; then come \<open>maxscore\<close> and \<open>founditem\<close>.
\<close>

fun getLeastImportantItem_loop ::
  "WindMeasurementList \<Rightarrow> real \<Rightarrow> nat \<Rightarrow> int \<Rightarrow> nat \<Rightarrow> nat option" where
  "getLeastImportantItem_loop s Time 0 maxscore founditem = Some founditem"
| "getLeastImportantItem_loop s Time (Suc i) maxscore founditem =
     (case deref s i of
        None \<Rightarrow> None
      | Some m \<Rightarrow>
          if score Time m > maxscore
          then getLeastImportantItem_loop s Time i (score Time m) i
          else getLeastImportantItem_loop s Time i maxscore founditem)"

text \<open>
  \<open>unsigned int founditem= nummeasurementlist-1\<close> wraps to \<open>2 ^ 32 - 1\<close> on an empty
  list; \<open>int i=founditem\<close> is then \<open>-1\<close> and the loop is not entered.
\<close>

definition getLeastImportantItem :: "WindMeasurementList \<Rightarrow> real \<Rightarrow> nat option" where
  "getLeastImportantItem s Time =
     (if nummeasurementlist s = 0 then Some (2 ^ 32 - 1)
      else getLeastImportantItem_loop s Time (nummeasurementlist s) 0
             (nummeasurementlist s - 1))"

subsection \<open>addMeasurement\<close>

text \<open>The sample built by \<open>new WindMeasurement\<close> and the five assignments that follow.\<close>

definition new_WindMeasurement :: "real \<Rightarrow> Vector \<Rightarrow> real \<Rightarrow> int \<Rightarrow> WindMeasurement" where
  "new_WindMeasurement Time v alt q =
     \<lparr>vector = (fst v, snd v), quality = q, time = int_of_double Time, altitude = alt\<rparr>"

text \<open>\<open>measurementlist[index] = wind; nummeasurementlist++;\<close>\<close>

definition store_measurement ::
  "WindMeasurementList \<Rightarrow> nat \<Rightarrow> WindMeasurement \<Rightarrow> WindMeasurementList option" where
  "store_measurement s index wind =
     (if index < length (measurementlist s) then
        Some (s\<lparr>measurementlist := (measurementlist s)[index := Some wind],
                nummeasurementlist := nummeasurementlist s + 1\<rparr>)
      else None)"

definition addMeasurement ::
  "WindMeasurementList \<Rightarrow> real \<Rightarrow> Vector \<Rightarrow> real \<Rightarrow> int \<Rightarrow> WindMeasurementList option" where
  "addMeasurement s Time v alt q =
     (if nummeasurementlist s = MAX_MEASUREMENTS then
        (case getLeastImportantItem s Time of
           None \<Rightarrow> None
         | Some index \<Rightarrow>
             (case deref s index of
                None \<Rightarrow> None
              | Some old \<Rightarrow>
                  store_measurement
                    (s\<lparr>measurementlist := (measurementlist s)[index := None],
                       nummeasurementlist := nummeasurementlist s - 1\<rparr>)
                    index (new_WindMeasurement Time v alt q)))
      else store_measurement s (nummeasurementlist s) (new_WindMeasurement Time v alt q))"

text \<open>
  A sequence of \<open>addMeasurement\<close> calls, each given by its four arguments, run one after
  the other; it stops at the first call that fails.
\<close>

type_synonym measurement_call = "real \<times> Vector \<times> real \<times> int"

fun addMeasurements ::
  "WindMeasurementList \<Rightarrow> measurement_call list \<Rightarrow> WindMeasurementList option" where
  "addMeasurements s [] = Some s"
| "addMeasurements s ((Time, v, alt, q) # calls) =
     (case addMeasurement s Time v alt q of
        None \<Rightarrow> None
      | Some s' \<Rightarrow> addMeasurements s' calls)"

subsection \<open>Well-formed stores\<close>

text \<open>
  The array has \<open>MAX_MEASUREMENTS\<close> slots, the count does not exceed it, and every slot
  below the count points to a live sample.
\<close>

definition wf_list :: "WindMeasurementList \<Rightarrow> bool" where
  "wf_list s \<longleftrightarrow>
     length (measurementlist s) = MAX_MEASUREMENTS \<and>
     nummeasurementlist s \<le> MAX_MEASUREMENTS \<and>
     list_all (\<lambda>p. p \<noteq> None) (take (nummeasurementlist s) (measurementlist s))"

text \<open>The samples in the slots below the count, in index order.\<close>

definition samples :: "WindMeasurementList \<Rightarrow> WindMeasurement list" where
  "samples s = map the (take (nummeasurementlist s) (measurementlist s))"

subsection \<open>Concrete stores and samples used in the examples\<close>

text \<open>A sample with vector \<open>(0, 0)\<close> at altitude 0, of the given quality and time.\<close>

definition plain_sample :: "int \<Rightarrow> int \<Rightarrow> WindMeasurement" where
  "plain_sample q t = \<lparr>vector = (0, 0), quality = q, time = t, altitude = 0\<rparr>"

text \<open>A full store: the sample \<open>a\<close> in slot 0, \<open>b\<close> in slots 1 to 198, \<open>c\<close> in slot 199.\<close>

definition full_store ::
  "WindMeasurement \<Rightarrow> WindMeasurement \<Rightarrow> WindMeasurement \<Rightarrow> WindMeasurementList" where
  "full_store a b c =
     \<lparr>measurementlist = Some a # replicate 198 (Some b) @ [Some c],
      nummeasurementlist = 200\<rparr>"

text \<open>The stores that hold one sample and two samples, the other slots dead.\<close>

definition one_store :: "WindMeasurement \<Rightarrow> WindMeasurementList" where
  "one_store a = \<lparr>measurementlist = Some a # replicate 199 None, nummeasurementlist = 1\<rparr>"


section \<open>Properties\<close>

subsection \<open>Well-formed stores and the two loops\<close>

lemma deref_wf:
  "wf_list s \<Longrightarrow> i < nummeasurementlist s \<Longrightarrow> deref s i = Some (samples s ! i)"
  by (auto simp: wf_list_def deref_def samples_def list_all_length)

lemma length_samples:
  "wf_list s \<Longrightarrow> length (samples s) = nummeasurementlist s"
  by (simp add: wf_list_def samples_def)

lemma least_loop_char:
  assumes "wf_list s" and "n \<le> nummeasurementlist s"
  shows "\<exists>r. getLeastImportantItem_loop s T n mx f = Some r \<and>
           (if \<exists>j<n. mx < score T (samples s ! j)
            then r < n \<and> mx < score T (samples s ! r) \<and>
                 (\<forall>j<n. score T (samples s ! j) \<le> score T (samples s ! r)) \<and>
                 (\<forall>j. r < j \<and> j < n \<longrightarrow> score T (samples s ! j) < score T (samples s ! r))
            else r = f)"
  using assms(2)
proof (induction n arbitrary: mx f)
  case 0
  then show ?case by simp
next
  case (Suc n)
  let ?sc = "\<lambda>j. score T (samples s ! j)"
  have d: "deref s n = Some (samples s ! n)"
    using assms(1) Suc.prems by (simp add: deref_wf)
  have n: "n \<le> nummeasurementlist s" using Suc.prems by simp
  show ?case
  proof (cases "mx < ?sc n")
    case True
    obtain r where r: "getLeastImportantItem_loop s T n (?sc n) n = Some r"
      and c: "if \<exists>j<n. ?sc n < ?sc j
              then r < n \<and> ?sc n < ?sc r \<and> (\<forall>j<n. ?sc j \<le> ?sc r) \<and>
                   (\<forall>j. r < j \<and> j < n \<longrightarrow> ?sc j < ?sc r)
              else r = n"
      using Suc.IH [OF n, of "?sc n" n] by blast
    have run: "getLeastImportantItem_loop s T (Suc n) mx f = Some r"
      using True d r by simp
    have ex: "\<exists>j<Suc n. mx < ?sc j" using True by blast
    show ?thesis
    proof (cases "\<exists>j<n. ?sc n < ?sc j")
      case True
      with c have c': "r < n" "?sc n < ?sc r" "\<forall>j<n. ?sc j \<le> ?sc r"
        "\<forall>j. r < j \<and> j < n \<longrightarrow> ?sc j < ?sc r" by simp_all
      have "\<forall>j<Suc n. ?sc j \<le> ?sc r"
        using c'(2,3) by (auto simp: less_Suc_eq)
      moreover have "\<forall>j. r < j \<and> j < Suc n \<longrightarrow> ?sc j < ?sc r"
        using c'(2,4) by (auto simp: less_Suc_eq)
      moreover have "mx < ?sc r" using \<open>mx < ?sc n\<close> c'(2) by simp
      ultimately show ?thesis using run ex c'(1) by auto
    next
      case False
      with c have "r = n" by simp
      moreover have "\<forall>j<Suc n. ?sc j \<le> ?sc n"
      proof (intro allI impI)
        fix j assume "j < Suc n"
        then consider "j < n" | "j = n" by linarith
        then show "?sc j \<le> ?sc n"
        proof cases
          case 1
          then show ?thesis using False by (meson not_less)
        next
          case 2
          then show ?thesis by simp
        qed
      qed
      ultimately show ?thesis using run ex \<open>mx < ?sc n\<close> by auto
    qed
  next
    case False
    obtain r where r: "getLeastImportantItem_loop s T n mx f = Some r"
      and c: "if \<exists>j<n. mx < ?sc j
              then r < n \<and> mx < ?sc r \<and> (\<forall>j<n. ?sc j \<le> ?sc r) \<and>
                   (\<forall>j. r < j \<and> j < n \<longrightarrow> ?sc j < ?sc r)
              else r = f"
      using Suc.IH [OF n, of mx f] by blast
    have run: "getLeastImportantItem_loop s T (Suc n) mx f = Some r"
      using False d r by simp
    show ?thesis
    proof (cases "\<exists>j<n. mx < ?sc j")
      case True
      with c have c': "r < n" "mx < ?sc r" "\<forall>j<n. ?sc j \<le> ?sc r"
        "\<forall>j. r < j \<and> j < n \<longrightarrow> ?sc j < ?sc r" by simp_all
      have "\<forall>j<Suc n. ?sc j \<le> ?sc r"
        using c'(2,3) False by (auto simp: less_Suc_eq)
      moreover have "\<forall>j. r < j \<and> j < Suc n \<longrightarrow> ?sc j < ?sc r"
        using c'(2,4) False by (auto simp: less_Suc_eq)
      moreover have "\<exists>j<Suc n. mx < ?sc j" using True by (auto simp: less_Suc_eq)
      ultimately show ?thesis using run c'(1,2) by auto
    next
      case F2: False
      with c have "r = f" by simp
      moreover have "\<not> (\<exists>j<Suc n. mx < ?sc j)"
        using F2 False by (auto simp: less_Suc_eq)
      ultimately show ?thesis using run by auto
    qed
  qed
qed

lemma getLeastImportantItem_char:
  assumes "wf_list s" and "0 < nummeasurementlist s"
    and "\<exists>j<nummeasurementlist s. 0 < score T (samples s ! j)"
  shows "\<exists>r<nummeasurementlist s. getLeastImportantItem s T = Some r \<and>
           (\<forall>j<nummeasurementlist s. score T (samples s ! j) \<le> score T (samples s ! r)) \<and>
           (\<forall>j. r < j \<and> j < nummeasurementlist s \<longrightarrow>
                 score T (samples s ! j) < score T (samples s ! r))"
  using least_loop_char [OF assms(1) order_refl, of T 0 "nummeasurementlist s - 1"] assms(2,3)
  by (auto simp: getLeastImportantItem_def)

text \<open>
  \<open>maxscore\<close> starts at 0: when no stored sample has a positive score, no score exceeds
  it and the initial \<open>founditem\<close>, the last slot, is returned.
\<close>

lemma getLeastImportantItem_no_positive_score:
  assumes "wf_list s" and "0 < nummeasurementlist s"
    and "\<not> (\<exists>j<nummeasurementlist s. 0 < score T (samples s ! j))"
  shows "getLeastImportantItem s T = Some (nummeasurementlist s - 1)"
  using least_loop_char [OF assms(1) order_refl, of T 0 "nummeasurementlist s - 1"] assms(2,3)
  by (auto simp: getLeastImportantItem_def)

lemma getLeastImportantItem_total:
  assumes "wf_list s" and "0 < nummeasurementlist s"
  shows "\<exists>r<nummeasurementlist s. getLeastImportantItem s T = Some r"
  using least_loop_char [OF assms(1) order_refl, of T 0 "nummeasurementlist s - 1"] assms(2)
  by (auto simp: getLeastImportantItem_def split: if_splits)

lemma addMeasurement_not_full:
  assumes "wf_list s" and "nummeasurementlist s < MAX_MEASUREMENTS"
  shows "addMeasurement s Time v alt q =
           Some (s\<lparr>measurementlist :=
                      (measurementlist s)[nummeasurementlist s :=
                         Some (new_WindMeasurement Time v alt q)],
                   nummeasurementlist := nummeasurementlist s + 1\<rparr>)"
  using assms by (simp add: addMeasurement_def store_measurement_def wf_list_def)

lemma addMeasurement_full:
  assumes "wf_list s" and "nummeasurementlist s = MAX_MEASUREMENTS"
    and "getLeastImportantItem s Time = Some r" and "r < MAX_MEASUREMENTS"
  shows "addMeasurement s Time v alt q =
           Some (s\<lparr>measurementlist :=
                      (measurementlist s)[r := Some (new_WindMeasurement Time v alt q)]\<rparr>)"
proof -
  have "deref s r = Some (samples s ! r)"
    using assms by (simp add: deref_wf)
  moreover have "r < length (measurementlist s)"
    using assms by (simp add: wf_list_def)
  ultimately show ?thesis
    using assms by (simp add: addMeasurement_def store_measurement_def MAX_MEASUREMENTS_def)
qed

lemma wf_list_update:
  assumes "wf_list s" and "r < nummeasurementlist s"
  shows "wf_list (s\<lparr>measurementlist := (measurementlist s)[r := Some w]\<rparr>)"
  using assms
  by (auto simp: wf_list_def list_all_length nth_list_update)

lemma wf_list_append:
  assumes "wf_list s" and "nummeasurementlist s < MAX_MEASUREMENTS"
  shows "wf_list (s\<lparr>measurementlist := (measurementlist s)[nummeasurementlist s := Some w],
                     nummeasurementlist := nummeasurementlist s + 1\<rparr>)"
  using assms
  by (auto simp: wf_list_def list_all_length nth_list_update)

lemma wf_list_new: "wf_list WindMeasurementList_new"
  by (simp add: wf_list_def WindMeasurementList_new_def)

lemma addMeasurement_wf:
  assumes "wf_list s"
  shows "\<exists>s'. addMeasurement s Time v alt q = Some s' \<and> wf_list s' \<and>
           nummeasurementlist s' =
             (if nummeasurementlist s < MAX_MEASUREMENTS then nummeasurementlist s + 1
              else MAX_MEASUREMENTS)"
proof (cases "nummeasurementlist s < MAX_MEASUREMENTS")
  case True
  then show ?thesis
    using addMeasurement_not_full [OF assms True] wf_list_append [OF assms True] by simp
next
  case False
  then have full: "nummeasurementlist s = MAX_MEASUREMENTS"
    using assms by (simp add: wf_list_def)
  then have pos: "0 < nummeasurementlist s" by (simp add: MAX_MEASUREMENTS_def)
  obtain r where r: "r < nummeasurementlist s" "getLeastImportantItem s Time = Some r"
    using getLeastImportantItem_total [OF assms pos] by blast
  then show ?thesis
    using addMeasurement_full [OF assms full r(2)] wf_list_update [OF assms r(1)] full
    by simp
qed

lemma addMeasurements_wf:
  assumes "wf_list s"
  shows "\<exists>s'. addMeasurements s calls = Some s' \<and> wf_list s'"
  using assms
proof (induction calls arbitrary: s)
  case Nil
  then show ?case by simp
next
  case (Cons c calls)
  obtain Time v alt q where c: "c = (Time, v, alt, q)" by (cases c) auto
  obtain s1 where s1: "addMeasurement s Time v alt q = Some s1" "wf_list s1"
    using addMeasurement_wf [OF Cons.prems] by blast
  then show ?case using Cons.IH [OF s1(2)] c by simp
qed

lemma wf_full_store: "wf_list (full_store a b c)"
  by (simp add: wf_list_def full_store_def MAX_MEASUREMENTS_def list_all_iff)

lemma samples_full_store:
  "samples (full_store a b c) = a # replicate 198 b @ [c]"
  by (simp add: samples_def full_store_def)

lemma nth_full_store:
  "j < 200 \<Longrightarrow> samples (full_store a b c) ! j = (if j = 0 then a else if j = 199 then c else b)"
  by (auto simp: samples_full_store nth_Cons nth_append split: nat.splits)

lemma addMeasurements_count:
  assumes "wf_list s"
  shows "\<exists>s'. addMeasurements s calls = Some s' \<and> wf_list s' \<and>
           nummeasurementlist s' = min (nummeasurementlist s + length calls) MAX_MEASUREMENTS"
  using assms
proof (induction calls arbitrary: s)
  case Nil
  then show ?case by (simp add: wf_list_def)
next
  case (Cons c calls)
  obtain Time v alt q where c: "c = (Time, v, alt, q)" by (cases c) auto
  obtain s1 where s1: "addMeasurement s Time v alt q = Some s1" "wf_list s1"
    "nummeasurementlist s1 =
       (if nummeasurementlist s < MAX_MEASUREMENTS then nummeasurementlist s + 1
        else MAX_MEASUREMENTS)"
    using addMeasurement_wf [OF Cons.prems] by blast
  obtain s' where s': "addMeasurements s1 calls = Some s'" "wf_list s'"
    "nummeasurementlist s' = min (nummeasurementlist s1 + length calls) MAX_MEASUREMENTS"
    using Cons.IH [OF s1(2)] by blast
  have "nummeasurementlist s' = min (nummeasurementlist s + length (c # calls)) MAX_MEASUREMENTS"
    using s'(3) s1(3) by (simp split: if_splits)
  then show ?case using s1(1) s'(1,2) c by simp
qed

subsection \<open>The capacity of the store\<close>

text \<open>
  Claim C2. Whatever sequence of \<open>addMeasurement\<close> calls is run on a freshly constructed
  store, every call succeeds and the count stays between 0 and 200 (the count is a
  natural number). In the state reached, a further call made while the count is below
  200 increases it by exactly 1, and a further call made while the count is 200 leaves
  it at 200. Every prefix of a sequence of calls is itself a sequence of calls, so this
  holds after every call.
\<close>

theorem C2_count_invariant:
  "\<exists>s. addMeasurements WindMeasurementList_new calls = Some s \<and>
       nummeasurementlist s \<le> MAX_MEASUREMENTS \<and>
       (\<forall>Time v alt q. \<exists>s'. addMeasurement s Time v alt q = Some s' \<and>
          (nummeasurementlist s < MAX_MEASUREMENTS \<longrightarrow>
             nummeasurementlist s' = nummeasurementlist s + 1) \<and>
          (nummeasurementlist s = MAX_MEASUREMENTS \<longrightarrow>
             nummeasurementlist s' = MAX_MEASUREMENTS))"
proof -
  obtain s where s: "addMeasurements WindMeasurementList_new calls = Some s" "wf_list s"
    using addMeasurements_wf [OF wf_list_new] by blast
  have "nummeasurementlist s \<le> MAX_MEASUREMENTS"
    using s(2) by (simp add: wf_list_def)
  moreover have "\<exists>s'. addMeasurement s Time v alt q = Some s' \<and>
          (nummeasurementlist s < MAX_MEASUREMENTS \<longrightarrow>
             nummeasurementlist s' = nummeasurementlist s + 1) \<and>
          (nummeasurementlist s = MAX_MEASUREMENTS \<longrightarrow>
             nummeasurementlist s' = MAX_MEASUREMENTS)" for Time v alt q
    using addMeasurement_wf [OF s(2), of Time v alt q] by auto
  ultimately show ?thesis using s(1) by blast
qed

text \<open>
  Both cases occur: on the fresh store the count goes from 0 to 1, and after 200 calls
  the count is 200 and stays 200.
\<close>

theorem C2_count_invariant_witness:
  "(\<exists>s s'. addMeasurements WindMeasurementList_new [] = Some s \<and>
       nummeasurementlist s = 0 \<and>
       addMeasurement s 0 (0, 0) 0 5 = Some s' \<and> nummeasurementlist s' = 1) \<and>
   (\<exists>s s'. addMeasurements WindMeasurementList_new (replicate 200 (0, (0, 0), 0, 5)) = Some s \<and>
       nummeasurementlist s = 200 \<and>
       addMeasurement s 0 (0, 0) 0 5 = Some s' \<and> nummeasurementlist s' = 200)"
proof (rule conjI)
  show "\<exists>s s'. addMeasurements WindMeasurementList_new [] = Some s \<and>
       nummeasurementlist s = 0 \<and>
       addMeasurement s 0 (0, 0) 0 5 = Some s' \<and> nummeasurementlist s' = 1"
    using C2_count_invariant [of "[]"]
    by (auto simp: WindMeasurementList_new_def MAX_MEASUREMENTS_def)
next
  let ?calls = "replicate 200 (0::real, (0::real, 0::real), 0::real, 5::int)"
  obtain s where s: "addMeasurements WindMeasurementList_new ?calls = Some s"
    and n: "nummeasurementlist s = min (nummeasurementlist WindMeasurementList_new + length ?calls) MAX_MEASUREMENTS"
    using addMeasurements_count [OF wf_list_new, of ?calls] by blast
  have n200: "nummeasurementlist s = 200"
    using n by (simp add: WindMeasurementList_new_def MAX_MEASUREMENTS_def)
  show "\<exists>s s'. addMeasurements WindMeasurementList_new ?calls = Some s \<and>
       nummeasurementlist s = 200 \<and>
       addMeasurement s 0 (0, 0) 0 5 = Some s' \<and> nummeasurementlist s' = 200"
    using C2_count_invariant [of ?calls] s n200
    by (auto simp: MAX_MEASUREMENTS_def)
qed

subsection \<open>The eviction\<close>

text \<open>
  Claim C1, as amended. The score of a stored sample is
  \<open>600 * (6 - quality) + trunc (Time - time)\<close>: the time difference is cut to an integer
  towards zero before it is added. For every full store in which at least one sample has
  a positive score at the reference time of the call, \<open>addMeasurement\<close> replaces exactly
  one slot \<open>r\<close> by the new sample, and the sample that was in slot \<open>r\<close> has a score that
  is maximal over all stored samples.
\<close>

theorem C1_evicted_score_maximal:
  assumes "wf_list s" and "nummeasurementlist s = MAX_MEASUREMENTS"
    and "\<exists>j<MAX_MEASUREMENTS. 0 < score Time (samples s ! j)"
  shows "\<exists>r<MAX_MEASUREMENTS.
           addMeasurement s Time v alt q =
             Some (s\<lparr>measurementlist :=
                        (measurementlist s)[r := Some (new_WindMeasurement Time v alt q)]\<rparr>) \<and>
           (\<forall>j<MAX_MEASUREMENTS. score Time (samples s ! j) \<le> score Time (samples s ! r))"
proof -
  have pos: "0 < nummeasurementlist s" using assms(2) by (simp add: MAX_MEASUREMENTS_def)
  obtain r where r: "r < nummeasurementlist s" "getLeastImportantItem s Time = Some r"
    "\<forall>j<nummeasurementlist s. score Time (samples s ! j) \<le> score Time (samples s ! r)"
    using getLeastImportantItem_char [OF assms(1) pos, of Time] assms(2,3) by auto
  have "r < MAX_MEASUREMENTS" using r(1) assms(2) by simp
  then show ?thesis
    using addMeasurement_full [OF assms(1,2) r(2)] r(3) assms(2) by auto
qed

text \<open>
  Claim C7, as amended. \<open>getLeastImportantItem\<close> scans the slots from 199 down to 0 and
  replaces the running maximum only by a strictly greater score
  (\<open>getLeastImportantItem_loop\<close>). With the score
  \<open>600 * (6 - quality) + trunc (Time - time)\<close>, and for every full store in which at least
  one sample has a positive score, the slot \<open>r\<close> it returns, which is the slot that
  \<open>addMeasurement\<close> replaces, holds a sample of maximal score, and every sample in a
  higher slot has a strictly smaller score: among the samples tied at the maximum, the one
  in the highest slot is evicted.
\<close>

theorem C7_evicted_is_highest_indexed_maximum:
  assumes "wf_list s" and "nummeasurementlist s = MAX_MEASUREMENTS"
    and "\<exists>j<MAX_MEASUREMENTS. 0 < score Time (samples s ! j)"
  shows "\<exists>r<MAX_MEASUREMENTS.
           getLeastImportantItem s Time = Some r \<and>
           addMeasurement s Time v alt q =
             Some (s\<lparr>measurementlist :=
                        (measurementlist s)[r := Some (new_WindMeasurement Time v alt q)]\<rparr>) \<and>
           (\<forall>j<MAX_MEASUREMENTS. score Time (samples s ! j) \<le> score Time (samples s ! r)) \<and>
           (\<forall>j. r < j \<and> j < MAX_MEASUREMENTS \<longrightarrow>
                 score Time (samples s ! j) < score Time (samples s ! r))"
proof -
  have pos: "0 < nummeasurementlist s" using assms(2) by (simp add: MAX_MEASUREMENTS_def)
  obtain r where r: "r < nummeasurementlist s" "getLeastImportantItem s Time = Some r"
    "\<forall>j<nummeasurementlist s. score Time (samples s ! j) \<le> score Time (samples s ! r)"
    "\<forall>j. r < j \<and> j < nummeasurementlist s \<longrightarrow>
         score Time (samples s ! j) < score Time (samples s ! r)"
    using getLeastImportantItem_char [OF assms(1) pos, of Time] assms(2,3) by auto
  have "r < MAX_MEASUREMENTS" using r(1) assms(2) by simp
  then show ?thesis
    using addMeasurement_full [OF assms(1,2) r(2)] r(2,3,4) assms(2) by auto
qed

subsection \<open>The eviction on the example stores\<close>

lemma score_plain: "score T (plain_sample q t) = 600 * (6 - q) + int_of_double (T - real_of_int t)"
  by (simp add: score_def plain_sample_def)

lemma full_store_evicts_last:
  assumes "0 < score T c" and "score T a \<le> score T c" and "score T b \<le> score T c"
  shows "getLeastImportantItem (full_store a b c) T = Some 199"
proof -
  let ?s = "full_store a b c"
  have n: "nummeasurementlist ?s = 200" by (simp add: full_store_def)
  have "\<exists>j<nummeasurementlist ?s. 0 < score T (samples ?s ! j)"
    using assms(1) n by (intro exI [of _ 199]) (simp add: nth_full_store)
  then obtain r where r: "r < 200" "getLeastImportantItem ?s T = Some r"
    "\<forall>j. r < j \<and> j < 200 \<longrightarrow> score T (samples ?s ! j) < score T (samples ?s ! r)"
    using getLeastImportantItem_char [OF wf_full_store, of a b c T] n by auto
  have "r = 199"
  proof (rule ccontr)
    assume "r \<noteq> 199"
    then have "r < 199" using r(1) by simp
    then have "score T (samples ?s ! 199) < score T (samples ?s ! r)" using r(3) by simp
    then show False using assms(2,3) \<open>r < 199\<close> by (simp add: nth_full_store split: if_splits)
  qed
  then show ?thesis using r(2) by simp
qed

lemma full_store_evicts_first:
  assumes "0 < score T a" and "score T b < score T a" and "score T c < score T a"
  shows "getLeastImportantItem (full_store a b c) T = Some 0"
proof -
  let ?s = "full_store a b c"
  have n: "nummeasurementlist ?s = 200" by (simp add: full_store_def)
  have "\<exists>j<nummeasurementlist ?s. 0 < score T (samples ?s ! j)"
    using assms(1) n by (intro exI [of _ 0]) (simp add: nth_full_store)
  then obtain r where r: "r < 200" "getLeastImportantItem ?s T = Some r"
    "\<forall>j<200. score T (samples ?s ! j) \<le> score T (samples ?s ! r)"
    using getLeastImportantItem_char [OF wf_full_store, of a b c T] n by auto
  have "r = 0"
  proof (rule ccontr)
    assume "r \<noteq> 0"
    moreover have "score T (samples ?s ! 0) \<le> score T (samples ?s ! r)" using r(3) by simp
    ultimately show False using assms(2,3) r(1) by (simp add: nth_full_store split: if_splits)
  qed
  then show ?thesis using r(2) by simp
qed

lemma full_store_no_positive_score:
  assumes "score T a \<le> 0" and "score T b \<le> 0" and "score T c \<le> 0"
  shows "getLeastImportantItem (full_store a b c) T = Some 199"
proof -
  let ?s = "full_store a b c"
  have n: "nummeasurementlist ?s = 200" by (simp add: full_store_def)
  have "\<not> (\<exists>j<nummeasurementlist ?s. 0 < score T (samples ?s ! j))"
    using assms by (auto simp: n nth_full_store)
  then show ?thesis
    using getLeastImportantItem_no_positive_score [OF wf_full_store, of a b c T] n by simp
qed

text \<open>
  Claim C1 as stated, with the score \<open>600 * (6 - quality) + (t - time)\<close> on the reals,
  fails on two full stores.
  \<^item> At the reference time \<open>1/2\<close>, slots 0 to 198 hold a sample of quality 5 and time 0 and
    slot 199 holds a sample of quality 5 and time 1: both truncated time differences are
    0, all 200 scores of the code are 600, slot 199 is evicted, and its real-valued score
    599.5 is below the 600.5 of slot 0.
  \<^item> At the reference time 0, slots 0 to 198 hold a sample of quality 5 and time 600 and
    slot 199 holds a sample of quality 5 and time 1000: no score is positive, slot 199 is
    evicted, and its score -400 is below the 0 of slot 0.
\<close>

theorem C1_counterexample:
  "getLeastImportantItem
     (full_store (plain_sample 5 0) (plain_sample 5 0) (plain_sample 5 1)) (1 / 2) = Some 199 \<and>
   samples (full_store (plain_sample 5 0) (plain_sample 5 0) (plain_sample 5 1)) ! 199
     = plain_sample 5 1 \<and>
   samples (full_store (plain_sample 5 0) (plain_sample 5 0) (plain_sample 5 1)) ! 0
     = plain_sample 5 0 \<and>
   600 * (6 - real_of_int (quality (plain_sample 5 1)))
       + (1 / 2 - real_of_int (time (plain_sample 5 1)))
     < 600 * (6 - real_of_int (quality (plain_sample 5 0)))
       + (1 / 2 - real_of_int (time (plain_sample 5 0))) \<and>
   getLeastImportantItem
     (full_store (plain_sample 5 600) (plain_sample 5 600) (plain_sample 5 1000)) 0 = Some 199 \<and>
   samples (full_store (plain_sample 5 600) (plain_sample 5 600) (plain_sample 5 1000)) ! 199
     = plain_sample 5 1000 \<and>
   samples (full_store (plain_sample 5 600) (plain_sample 5 600) (plain_sample 5 1000)) ! 0
     = plain_sample 5 600 \<and>
   600 * (6 - real_of_int (quality (plain_sample 5 1000)))
       + (0 - real_of_int (time (plain_sample 5 1000)))
     < 600 * (6 - real_of_int (quality (plain_sample 5 600)))
       + (0 - real_of_int (time (plain_sample 5 600)))"
proof -
  have 1: "getLeastImportantItem
     (full_store (plain_sample 5 0) (plain_sample 5 0) (plain_sample 5 1)) (1 / 2) = Some 199"
    by (rule full_store_evicts_last) (simp_all add: score_plain int_of_double_def ceiling_def)
  have 2: "getLeastImportantItem
     (full_store (plain_sample 5 600) (plain_sample 5 600) (plain_sample 5 1000)) 0 = Some 199"
    by (rule full_store_no_positive_score) (simp_all add: score_plain int_of_double_def)
  show ?thesis
    using 1 2 by (simp add: nth_full_store) (simp add: plain_sample_def)
qed

theorem C1_evicted_score_maximal_witness:
  "wf_list (full_store (plain_sample 3 0) (plain_sample 5 0) (plain_sample 5 0)) \<and>
   nummeasurementlist (full_store (plain_sample 3 0) (plain_sample 5 0) (plain_sample 5 0))
     = MAX_MEASUREMENTS \<and>
   (\<exists>j<MAX_MEASUREMENTS.
      0 < score 10 (samples (full_store (plain_sample 3 0) (plain_sample 5 0) (plain_sample 5 0)) ! j)) \<and>
   (\<exists>r<MAX_MEASUREMENTS.
      addMeasurement (full_store (plain_sample 3 0) (plain_sample 5 0) (plain_sample 5 0))
          10 (1, 2) 0 4 =
        Some ((full_store (plain_sample 3 0) (plain_sample 5 0) (plain_sample 5 0))
               \<lparr>measurementlist :=
                  (measurementlist (full_store (plain_sample 3 0) (plain_sample 5 0) (plain_sample 5 0)))
                    [r := Some (new_WindMeasurement 10 (1, 2) 0 4)]\<rparr>) \<and>
      (\<forall>j<MAX_MEASUREMENTS.
         score 10 (samples (full_store (plain_sample 3 0) (plain_sample 5 0) (plain_sample 5 0)) ! j)
         \<le> score 10 (samples (full_store (plain_sample 3 0) (plain_sample 5 0) (plain_sample 5 0)) ! r)))"
proof -
  let ?s = "full_store (plain_sample 3 0) (plain_sample 5 0) (plain_sample 5 0)"
  have w: "wf_list ?s" by (rule wf_full_store)
  have n: "nummeasurementlist ?s = MAX_MEASUREMENTS"
    by (simp add: full_store_def MAX_MEASUREMENTS_def)
  have e: "\<exists>j<MAX_MEASUREMENTS. 0 < score 10 (samples ?s ! j)"
    by (intro exI [of _ 0])
      (simp add: MAX_MEASUREMENTS_def nth_full_store score_plain int_of_double_def)
  show ?thesis
    using C1_evicted_score_maximal [OF w n e, of "(1, 2)" 0 4] w n e by simp
qed

theorem C7_evicted_is_highest_indexed_maximum_witness:
  "wf_list (full_store (plain_sample 5 0) (plain_sample 5 0) (plain_sample 5 7)) \<and>
   nummeasurementlist (full_store (plain_sample 5 0) (plain_sample 5 0) (plain_sample 5 7))
     = MAX_MEASUREMENTS \<and>
   (\<exists>j<MAX_MEASUREMENTS.
      0 < score 10 (samples (full_store (plain_sample 5 0) (plain_sample 5 0) (plain_sample 5 7)) ! j)) \<and>
   (\<exists>r<MAX_MEASUREMENTS.
      getLeastImportantItem (full_store (plain_sample 5 0) (plain_sample 5 0) (plain_sample 5 7)) 10
        = Some r \<and>
      addMeasurement (full_store (plain_sample 5 0) (plain_sample 5 0) (plain_sample 5 7))
          10 (1, 2) 0 4 =
        Some ((full_store (plain_sample 5 0) (plain_sample 5 0) (plain_sample 5 7))
               \<lparr>measurementlist :=
                  (measurementlist (full_store (plain_sample 5 0) (plain_sample 5 0) (plain_sample 5 7)))
                    [r := Some (new_WindMeasurement 10 (1, 2) 0 4)]\<rparr>) \<and>
      (\<forall>j<MAX_MEASUREMENTS.
         score 10 (samples (full_store (plain_sample 5 0) (plain_sample 5 0) (plain_sample 5 7)) ! j)
         \<le> score 10 (samples (full_store (plain_sample 5 0) (plain_sample 5 0) (plain_sample 5 7)) ! r)) \<and>
      (\<forall>j. r < j \<and> j < MAX_MEASUREMENTS \<longrightarrow>
         score 10 (samples (full_store (plain_sample 5 0) (plain_sample 5 0) (plain_sample 5 7)) ! j)
         < score 10 (samples (full_store (plain_sample 5 0) (plain_sample 5 0) (plain_sample 5 7)) ! r)))"
proof -
  let ?s = "full_store (plain_sample 5 0) (plain_sample 5 0) (plain_sample 5 7)"
  have w: "wf_list ?s" by (rule wf_full_store)
  have n: "nummeasurementlist ?s = MAX_MEASUREMENTS"
    by (simp add: full_store_def MAX_MEASUREMENTS_def)
  have e: "\<exists>j<MAX_MEASUREMENTS. 0 < score 10 (samples ?s ! j)"
    by (intro exI [of _ 0])
      (simp add: MAX_MEASUREMENTS_def nth_full_store score_plain int_of_double_def)
  show ?thesis
    using C7_evicted_is_highest_indexed_maximum [OF w n e, of "(1, 2)" 0 4] w n e by simp
qed

text \<open>
  Claim C7 as stated, with ties taken on the real-valued score
  \<open>600 * (6 - quality) + (t - time)\<close>, fails on two full stores.
  \<^item> At the reference time \<open>1/2\<close>, slot 0 holds a sample of quality 4 and time 600 and
    slots 1 to 199 hold a sample of quality 5 and time 0: all 200 samples are tied at
    600.5, yet the truncated scores are 601 for slot 0 and 600 for the others, and slot 0
    is evicted, not slot 199.
  \<^item> At the reference time 0, slots 0 to 198 hold a sample of quality 5 and time 600 and
    slot 199 holds a sample of quality 5 and time 1000: the maximum score 0 is shared by
    slots 0 to 198, no score is positive, and slot 199 with the score -400 is evicted, not
    slot 198.
\<close>

theorem C7_counterexample:
  "getLeastImportantItem
     (full_store (plain_sample 4 600) (plain_sample 5 0) (plain_sample 5 0)) (1 / 2) = Some 0 \<and>
   list_all (\<lambda>m. 600 * (6 - real_of_int (quality m)) + (1 / 2 - real_of_int (time m)) = 1201 / 2)
     (samples (full_store (plain_sample 4 600) (plain_sample 5 0) (plain_sample 5 0))) \<and>
   getLeastImportantItem
     (full_store (plain_sample 5 600) (plain_sample 5 600) (plain_sample 5 1000)) 0 = Some 199 \<and>
   list_all (\<lambda>m. 600 * (6 - real_of_int (quality m)) + (0 - real_of_int (time m)) \<le> 0)
     (samples (full_store (plain_sample 5 600) (plain_sample 5 600) (plain_sample 5 1000))) \<and>
   600 * (6 - real_of_int (quality
        (samples (full_store (plain_sample 5 600) (plain_sample 5 600) (plain_sample 5 1000)) ! 0)))
     + (0 - real_of_int (time
        (samples (full_store (plain_sample 5 600) (plain_sample 5 600) (plain_sample 5 1000)) ! 0)))
     = 0 \<and>
   600 * (6 - real_of_int (quality
        (samples (full_store (plain_sample 5 600) (plain_sample 5 600) (plain_sample 5 1000)) ! 198)))
     + (0 - real_of_int (time
        (samples (full_store (plain_sample 5 600) (plain_sample 5 600) (plain_sample 5 1000)) ! 198)))
     = 0 \<and>
   600 * (6 - real_of_int (quality
        (samples (full_store (plain_sample 5 600) (plain_sample 5 600) (plain_sample 5 1000)) ! 199)))
     + (0 - real_of_int (time
        (samples (full_store (plain_sample 5 600) (plain_sample 5 600) (plain_sample 5 1000)) ! 199)))
     = - 400"
proof -
  have 1: "getLeastImportantItem
     (full_store (plain_sample 4 600) (plain_sample 5 0) (plain_sample 5 0)) (1 / 2) = Some 0"
    by (rule full_store_evicts_first) (simp_all add: score_plain int_of_double_def ceiling_def)
  have 2: "getLeastImportantItem
     (full_store (plain_sample 5 600) (plain_sample 5 600) (plain_sample 5 1000)) 0 = Some 199"
    by (rule full_store_no_positive_score) (simp_all add: score_plain int_of_double_def)
  let ?s = "full_store (plain_sample 5 600) (plain_sample 5 600) (plain_sample 5 1000)"
  have 3: "list_all (\<lambda>m. 600 * (6 - real_of_int (quality m)) + (1 / 2 - real_of_int (time m))
              = 1201 / 2)
     (samples (full_store (plain_sample 4 600) (plain_sample 5 0) (plain_sample 5 0)))"
    by (simp add: samples_full_store list_all_iff plain_sample_def)
  have 4: "list_all (\<lambda>m. 600 * (6 - real_of_int (quality m)) + (0 - real_of_int (time m)) \<le> 0)
     (samples ?s)"
    by (simp add: samples_full_store list_all_iff plain_sample_def)
  have n: "samples ?s ! 0 = plain_sample 5 600" "samples ?s ! 198 = plain_sample 5 600"
    "samples ?s ! 199 = plain_sample 5 1000"
    by (simp_all add: nth_full_store)
  have 5: "600 * (6 - real_of_int (quality (plain_sample 5 600)))
      + (0 - real_of_int (time (plain_sample 5 600))) = 0"
    "600 * (6 - real_of_int (quality (plain_sample 5 1000)))
      + (0 - real_of_int (time (plain_sample 5 1000))) = - 400"
    by (simp_all add: plain_sample_def)
  show ?thesis
    using 1 2 3 4 5 unfolding n by (intro conjI)
qed

subsection \<open>The loop of getWind\<close>

lemma getWind_loop_fold:
  "wf_list s \<Longrightarrow> i \<le> nummeasurementlist s \<Longrightarrow>
   getWind_loop s now alt i acc = Some (fold (getWind_body now alt) (drop i (samples s)) acc)"
proof (induction s now alt i acc rule: getWind_loop.induct)
  case (1 s now alt i acc)
  show ?case
  proof (cases "i < nummeasurementlist s")
    case True
    then have d: "deref s i = Some (samples s ! i)"
      using "1.prems" by (simp add: deref_wf)
    have "drop i (samples s) = samples s ! i # drop (i + 1) (samples s)"
      using True "1.prems" by (simp add: Cons_nth_drop_Suc length_samples)
    moreover have "getWind_loop s now alt (i + 1) (getWind_body now alt (samples s ! i) acc)
        = Some (fold (getWind_body now alt) (drop (i + 1) (samples s))
                 (getWind_body now alt (samples s ! i) acc))"
      using "1.IH" [OF True d] "1.prems" True by simp
    ultimately show ?thesis
      using True d by (subst getWind_loop.simps) simp
  next
    case False
    then have "i = nummeasurementlist s" using "1.prems" by simp
    then show ?thesis
      using "1.prems" by (subst getWind_loop.simps) (simp add: length_samples)
  qed
qed

lemma getWind_fold:
  "wf_list s \<Longrightarrow>
   getWind s Time alt =
     Some (getWind_finish (fold (getWind_body (int_of_double Time) alt) (samples s) (0, 0, 0)))"
  by (simp add: getWind_def getWind_loop_fold)

subsection \<open>Bounds of the rounded factors\<close>

lemma a_factor_bounds:
  assumes "\<bar>d\<bar> < (1::real)"
  shows "0 \<le> iround ((2 / (d * d + 1) - 1) * 100)" and "iround ((2 / (d * d + 1) - 1) * 100) \<le> 100"
proof -
  have d2: "0 \<le> d * d" "d * d < 1"
    using assms by (simp_all add: abs_square_less_1 power2_eq_square [symmetric])
  have p: "0 < d * d + 1" using d2 by linarith
  have "1 \<le> 2 / (d * d + 1)" using d2 p by (simp add: pos_le_divide_eq)
  moreover have "2 / (d * d + 1) \<le> 2" using d2 p by (simp add: pos_divide_le_eq)
  ultimately have x: "0 \<le> (2 / (d * d + 1) - 1) * 100" "(2 / (d * d + 1) - 1) * 100 \<le> 100"
    by simp_all
  show "0 \<le> iround ((2 / (d * d + 1) - 1) * 100)"
    using round_mono [OF x(1)] by (simp add: iround_def)
  show "iround ((2 / (d * d + 1) - 1) * 100) \<le> 100"
    using round_mono [OF x(2)] by (simp add: iround_def)
qed

lemma t_factor_bounds:
  assumes "0 \<le> d" and "d < (1::real)"
  shows "0 \<le> iround (0.0025 * (1 - d) / (d * d + 0.0025) * 200)"
    and "iround (0.0025 * (1 - d) / (d * d + 0.0025) * 200) \<le> 200"
proof -
  define y where "y = 0.0025 * (1 - d) / (d * d + 0.0025)"
  have d2: "0 \<le> d * d" using assms by simp
  have pos: "0 < d * d + 0.0025" using d2 by (simp add: add_nonneg_pos)
  have num: "0 \<le> 0.0025 * (1 - d)" using assms by simp
  have y0: "0 \<le> y"
    unfolding y_def using num pos by (intro divide_nonneg_pos)
  have "0.0025 * (1 - d) \<le> 0.0025" using assms by simp
  moreover have "(0.0025::real) \<le> d * d + 0.0025" by simp
  ultimately have "0.0025 * (1 - d) \<le> 1 * (d * d + 0.0025)"
    by (simp only: mult_1 order_trans)
  then have y1: "y \<le> 1"
    unfolding y_def using pos by (simp only: pos_divide_le_eq)
  have x1: "0 \<le> y * 200" using y0 by simp
  have x2: "y * 200 \<le> 200" using y1 by simp
  show "0 \<le> iround (0.0025 * (1 - d) / (d * d + 0.0025) * 200)"
    using round_mono [OF x1] unfolding y_def iround_def by simp
  show "iround (0.0025 * (1 - d) / (d * d + 0.0025) * 200) \<le> 200"
    using round_mono [OF x2] unfolding y_def iround_def by simp
qed

lemma int_div_100_5: "int_div (q * 100) 5 = 20 * q"
proof (cases "0 \<le> q")
  case True
  then show ?thesis by (cases "q = 0") (simp_all add: int_div_def sgn_mult)
next
  case False
  then have "\<bar>q * 100\<bar> = (- q) * 100" by simp
  then show ?thesis using False by (simp add: int_div_def sgn_mult)
qed

subsection \<open>Stores with one and two samples\<close>

lemma wf_one_store: "wf_list (one_store a)"
  by (simp add: wf_list_def one_store_def MAX_MEASUREMENTS_def)

lemma samples_one_store: "samples (one_store a) = [a]"
  by (simp add: samples_def one_store_def)



lemma replicate_200: "replicate 200 x = x # replicate 199 x"
proof -
  have "(200::nat) = Suc 199" by simp
  then show ?thesis by (simp only: replicate_Suc)
qed


lemma addMeasurement_new:
  "addMeasurement WindMeasurementList_new Time v alt q =
     Some (one_store (new_WindMeasurement Time v alt q))"
proof -
  have "nummeasurementlist WindMeasurementList_new < MAX_MEASUREMENTS"
    by (simp add: WindMeasurementList_new_def MAX_MEASUREMENTS_def)
  then show ?thesis
    using addMeasurement_not_full [OF wf_list_new, of Time v alt q]
    by (simp add: WindMeasurementList_new_def one_store_def MAX_MEASUREMENTS_def replicate_200)
qed


lemma int_of_double_of_int: "int_of_double (real_of_int n) = n"
  by (simp add: int_of_double_def)

lemma new_WindMeasurement_window:
  "altdiff alt (new_WindMeasurement Time v alt q) = 0"
  "timediff (int_of_double Time) (new_WindMeasurement Time v alt q) = 0"
  by (simp_all add: altdiff_def timediff_def new_WindMeasurement_def)

lemma getWind_one_store:
  "getWind (one_store m) Time alt =
     Some (getWind_finish (getWind_body (int_of_double Time) alt m (0, 0, 0)))"
  by (simp add: getWind_fold [OF wf_one_store] samples_one_store)

subsection \<open>A single sample queried at its own time and altitude\<close>

text \<open>
  After one \<open>addMeasurement\<close> with quality 5 on a freshly constructed store, \<open>getWind\<close> at
  the time and altitude of the sample returns \<open>found = true\<close>; the quality weight of the
  sample is 100, its altitude weight 100, its time weight 200 and its combined weight
  2,000,000. The vector returned is each component of the inserted vector multiplied by
  2000000 and divided by 2000000: on exact reals that is the component itself, in binary64
  it can differ from it in the last place, so nothing is stated about it here.
\<close>

lemma single_sample_weights:
  "\<exists>s e. addMeasurement WindMeasurementList_new t0 v a0 5 = Some s \<and>
       getWind s t0 a0 = Some (e, True) \<and>
       q_quality (new_WindMeasurement t0 v a0 5) = 100 \<and>
       a_quality a0 (new_WindMeasurement t0 v a0 5) = 100 \<and>
       t_quality (int_of_double t0) (new_WindMeasurement t0 v a0 5) = 200 \<and>
       sample_quality (int_of_double t0) a0 (new_WindMeasurement t0 v a0 5) = 2000000"
proof -
  let ?m = "new_WindMeasurement t0 v a0 5"
  let ?now = "int_of_double t0"
  have q: "q_quality ?m = 100"
    by (simp add: q_quality_def new_WindMeasurement_def REL_FACTOR_QUALITY_def int_div_def)
  have a: "a_quality a0 ?m = 100"
    by (simp add: a_quality_def a_round_def new_WindMeasurement_window iround_def REL_FACTOR_ALTITUDE_def)
  have t: "t_quality ?now ?m = 200"
    by (simp add: t_quality_def t_round_def new_WindMeasurement_window iround_def REL_FACTOR_TIME_def)
  have w: "sample_quality ?now a0 ?m = 2000000"
    by (simp add: sample_quality_def q a t)
  have win: "in_window ?now a0 ?m"
    by (simp add: in_window_def new_WindMeasurement_window)
  have "getWind_body ?now a0 ?m (0, 0, 0) = (fst v * 2000000, snd v * 2000000, 2000000)"
    by (simp add: getWind_body_def win w) (simp add: new_WindMeasurement_def)
  then have "getWind (one_store ?m) t0 a0 = Some (v, True)"
    by (simp add: getWind_one_store getWind_finish_def)
  then show ?thesis
    using q a t w addMeasurement_new [of t0 v a0 5] by simp
qed

subsection \<open>Times are truncated at the interface\<close>

lemma addMeasurement_replaces:
  assumes "wf_list s"
  shows "\<exists>r<MAX_MEASUREMENTS.
           addMeasurement s Time v alt q =
             Some (s\<lparr>measurementlist :=
                        (measurementlist s)[r := Some (new_WindMeasurement Time v alt q)],
                     nummeasurementlist := min (nummeasurementlist s + 1) MAX_MEASUREMENTS\<rparr>)"
proof (cases "nummeasurementlist s < MAX_MEASUREMENTS")
  case True
  then show ?thesis
    using addMeasurement_not_full [OF assms True, of Time v alt q]
    by (intro exI [of _ "nummeasurementlist s"]) (simp add: min_def)
next
  case False
  then have full: "nummeasurementlist s = MAX_MEASUREMENTS"
    using assms by (simp add: wf_list_def)
  then have pos: "0 < nummeasurementlist s" by (simp add: MAX_MEASUREMENTS_def)
  obtain r where r: "r < nummeasurementlist s" "getLeastImportantItem s Time = Some r"
    using getLeastImportantItem_total [OF assms pos] by blast
  have rm: "r < MAX_MEASUREMENTS" using r(1) full by simp
  have "s\<lparr>measurementlist := (measurementlist s)[r := Some (new_WindMeasurement Time v alt q)]\<rparr>
      = s\<lparr>measurementlist := (measurementlist s)[r := Some (new_WindMeasurement Time v alt q)],
           nummeasurementlist := min (nummeasurementlist s + 1) MAX_MEASUREMENTS\<rparr>"
    using full by simp
  then show ?thesis
    using addMeasurement_full [OF assms full r(2) rm, of v alt q] rm by auto
qed

text \<open>
  Claim C10. \<open>getWind\<close> uses its reference time only through \<open>(int)Time\<close>, so for every
  store, altitude and real reference time \<open>t\<close> it returns at \<open>t\<close> what it returns at the
  truncation of \<open>t\<close>. \<open>addMeasurement\<close> stores \<open>(long)Time\<close> as the time of the sample; two
  calls whose times have the same truncation, with equal vector, altitude and quality,
  build the same sample, each call on a well-formed store writes that sample into one
  slot, and on a store that is not full the two calls give the same store.
\<close>

theorem C10_times_truncated:
  "getWind s t a = getWind s (real_of_int (int_of_double t)) a \<and>
   time (new_WindMeasurement T1 v alt q) = int_of_double T1 \<and>
   (int_of_double T1 = int_of_double T2 \<longrightarrow>
      new_WindMeasurement T1 v alt q = new_WindMeasurement T2 v alt q \<and>
      (wf_list s \<longrightarrow>
        (\<exists>r1 r2. r1 < MAX_MEASUREMENTS \<and> r2 < MAX_MEASUREMENTS \<and>
           addMeasurement s T1 v alt q =
             Some (s\<lparr>measurementlist :=
                        (measurementlist s)[r1 := Some (new_WindMeasurement T1 v alt q)],
                     nummeasurementlist := min (nummeasurementlist s + 1) MAX_MEASUREMENTS\<rparr>) \<and>
           addMeasurement s T2 v alt q =
             Some (s\<lparr>measurementlist :=
                        (measurementlist s)[r2 := Some (new_WindMeasurement T1 v alt q)],
                     nummeasurementlist := min (nummeasurementlist s + 1) MAX_MEASUREMENTS\<rparr>))) \<and>
      (wf_list s \<and> nummeasurementlist s < MAX_MEASUREMENTS \<longrightarrow>
         addMeasurement s T1 v alt q = addMeasurement s T2 v alt q))"
proof -
  have g: "getWind s t a = getWind s (real_of_int (int_of_double t)) a"
    by (simp add: getWind_def int_of_double_of_int)
  have tm: "time (new_WindMeasurement T1 v alt q) = int_of_double T1"
    by (simp add: new_WindMeasurement_def)
  have rest: "new_WindMeasurement T1 v alt q = new_WindMeasurement T2 v alt q \<and>
      (wf_list s \<longrightarrow>
        (\<exists>r1 r2. r1 < MAX_MEASUREMENTS \<and> r2 < MAX_MEASUREMENTS \<and>
           addMeasurement s T1 v alt q =
             Some (s\<lparr>measurementlist :=
                        (measurementlist s)[r1 := Some (new_WindMeasurement T1 v alt q)],
                     nummeasurementlist := min (nummeasurementlist s + 1) MAX_MEASUREMENTS\<rparr>) \<and>
           addMeasurement s T2 v alt q =
             Some (s\<lparr>measurementlist :=
                        (measurementlist s)[r2 := Some (new_WindMeasurement T1 v alt q)],
                     nummeasurementlist := min (nummeasurementlist s + 1) MAX_MEASUREMENTS\<rparr>))) \<and>
      (wf_list s \<and> nummeasurementlist s < MAX_MEASUREMENTS \<longrightarrow>
         addMeasurement s T1 v alt q = addMeasurement s T2 v alt q)"
    if eq: "int_of_double T1 = int_of_double T2"
  proof -
    have n: "new_WindMeasurement T1 v alt q = new_WindMeasurement T2 v alt q"
      using eq by (simp add: new_WindMeasurement_def)
    have "\<exists>r1 r2. r1 < MAX_MEASUREMENTS \<and> r2 < MAX_MEASUREMENTS \<and>
           addMeasurement s T1 v alt q =
             Some (s\<lparr>measurementlist :=
                        (measurementlist s)[r1 := Some (new_WindMeasurement T1 v alt q)],
                     nummeasurementlist := min (nummeasurementlist s + 1) MAX_MEASUREMENTS\<rparr>) \<and>
           addMeasurement s T2 v alt q =
             Some (s\<lparr>measurementlist :=
                        (measurementlist s)[r2 := Some (new_WindMeasurement T1 v alt q)],
                     nummeasurementlist := min (nummeasurementlist s + 1) MAX_MEASUREMENTS\<rparr>)"
      if w: "wf_list s"
      using addMeasurement_replaces [OF w, of T1 v alt q]
        addMeasurement_replaces [OF w, of T2 v alt q] n by auto
    moreover have "addMeasurement s T1 v alt q = addMeasurement s T2 v alt q"
      if "wf_list s \<and> nummeasurementlist s < MAX_MEASUREMENTS"
      using that n by (simp add: addMeasurement_not_full)
    ultimately show ?thesis using n by blast
  qed
  show ?thesis using g tm rest by blast
qed

theorem C10_times_truncated_witness:
  "int_of_double (1 / 4) = int_of_double (3 / 4) \<and>
   wf_list WindMeasurementList_new \<and>
   nummeasurementlist WindMeasurementList_new < MAX_MEASUREMENTS \<and>
   getWind WindMeasurementList_new (1 / 4) 0
     = getWind WindMeasurementList_new (real_of_int (int_of_double (1 / 4))) 0 \<and>
   new_WindMeasurement (1 / 4) (1, 2) 0 3 = new_WindMeasurement (3 / 4) (1, 2) 0 3 \<and>
   addMeasurement WindMeasurementList_new (1 / 4) (1, 2) 0 3
     = addMeasurement WindMeasurementList_new (3 / 4) (1, 2) 0 3"
proof -
  have e: "int_of_double (1 / 4) = int_of_double (3 / 4)"
    by (simp add: int_of_double_def)
  have n: "nummeasurementlist WindMeasurementList_new < MAX_MEASUREMENTS"
    by (simp add: WindMeasurementList_new_def MAX_MEASUREMENTS_def)
  show ?thesis
    using C10_times_truncated [of WindMeasurementList_new "1 / 4" 0 "1 / 4" "(1, 2)" 0 3 "3 / 4"]
      e n wf_list_new by blast
qed

subsection \<open>The sums that getWind accumulates\<close>




lemma sample_quality_word_of_int:
  "sample_quality now alt m = word_of_int (20 * quality m * (a_round alt m * t_round now m))"
  unfolding sample_quality_def q_quality_def a_quality_def t_quality_def REL_FACTOR_QUALITY_def
  by (simp only: int_div_100_5 wi_hom_mult)

lemma uint_sample_quality:
  "uint (sample_quality now alt m) =
     (20 * quality m * (a_round alt m * t_round now m)) mod 2 ^ 32"
  by (simp only: sample_quality_word_of_int uint_word_of_int) simp

lemma a_round_bounds:
  assumes "\<bar>altdiff alt m\<bar> < 1"
  shows "0 \<le> a_round alt m" and "a_round alt m \<le> 100"
  using a_factor_bounds [OF assms]
  by (simp_all add: a_round_def REL_FACTOR_ALTITUDE_def)

lemma timediff_nonneg: "0 \<le> timediff now m"
  by (simp add: timediff_def)

lemma t_round_bounds:
  assumes "timediff now m < 1"
  shows "0 \<le> t_round now m" and "t_round now m \<le> 200"
  using t_factor_bounds [OF timediff_nonneg assms]
  by (simp_all add: t_round_def REL_FACTOR_TIME_def)

lemma window_product_bounds:
  assumes "in_window now alt m"
  shows "0 \<le> a_round alt m * t_round now m" and "a_round alt m * t_round now m \<le> 20000"
proof -
  have a: "0 \<le> a_round alt m" "a_round alt m \<le> 100"
    using assms a_round_bounds [of alt m] by (simp_all add: in_window_def)
  have t: "0 \<le> t_round now m" "t_round now m \<le> 200"
    using assms t_round_bounds [of now m] by (simp_all add: in_window_def)
  show "0 \<le> a_round alt m * t_round now m" using a(1) t(1) by simp
  have "a_round alt m * t_round now m \<le> 100 * 200"
    using a t by (intro mult_mono) simp_all
  then show "a_round alt m * t_round now m \<le> 20000" by simp
qed

lemma uint_sample_quality_exact:
  assumes "in_window now alt m" and "0 \<le> quality m" and "quality m \<le> 5"
  shows "uint (sample_quality now alt m) = 20 * quality m * (a_round alt m * t_round now m)"
    and "uint (sample_quality now alt m) \<le> 2000000"
proof -
  let ?p = "a_round alt m * t_round now m"
  have p: "0 \<le> ?p" "?p \<le> 20000" using window_product_bounds [OF assms(1)] by simp_all
  have q: "0 \<le> 20 * quality m" "20 * quality m \<le> 100" using assms(2,3) by simp_all
  have lo: "0 \<le> 20 * quality m * ?p" using p(1) q(1) by simp
  have "20 * quality m * ?p \<le> 100 * 20000"
    using p q by (intro mult_mono) simp_all
  then have hi: "20 * quality m * ?p \<le> 2000000" by simp
  then have "20 * quality m * ?p < 2 ^ 32" by simp
  then show "uint (sample_quality now alt m) = 20 * quality m * ?p"
    using lo by (simp add: uint_sample_quality)
  then show "uint (sample_quality now alt m) \<le> 2000000" using hi by simp
qed








text \<open>
  The bound on the total weight holds in particular when every stored quality lies
  between 0 and 5: a combined weight is then at most 2,000,000, and there are at most 200
  samples.
\<close>

lemma sum_list_bounded:
  assumes "\<forall>x\<in>set xs. f x \<le> (c::nat)"
  shows "(\<Sum>x\<leftarrow>xs. f x) \<le> length xs * c"
  using assms by (induction xs) (simp_all add: add_mono)

lemma total_weight_small:
  assumes "wf_list s" and "list_all (\<lambda>m. 0 \<le> quality m \<and> quality m \<le> 5) (samples s)"
  shows "(\<Sum>m\<leftarrow>filter (in_window now a) (samples s). unat (sample_quality now a m)) < 2 ^ 31"
proof -
  let ?ws = "filter (in_window now a) (samples s)"
  have "\<forall>m\<in>set ?ws. unat (sample_quality now a m) \<le> 2000000"
  proof
    fix m assume m: "m \<in> set ?ws"
    then have "in_window now a m" "0 \<le> quality m" "quality m \<le> 5"
      using assms(2) by (auto simp: list_all_iff)
    then have "uint (sample_quality now a m) \<le> 2000000"
      by (rule uint_sample_quality_exact(2))
    then show "unat (sample_quality now a m) \<le> 2000000"
      by (simp add: unat_eq_nat_uint del: nat_uint_eq)
  qed
  then have "(\<Sum>m\<leftarrow>?ws. unat (sample_quality now a m)) \<le> length ?ws * 2000000"
    by (rule sum_list_bounded)
  moreover have "length ?ws \<le> length (samples s)" by simp
  moreover have "length (samples s) \<le> 200"
    using assms(1) by (simp add: length_samples) (simp add: wf_list_def MAX_MEASUREMENTS_def)
  ultimately have "(\<Sum>m\<leftarrow>?ws. unat (sample_quality now a m)) \<le> 200 * 2000000"
    by (meson le_trans mult_le_mono1)
  then show ?thesis by simp
qed



subsection \<open>The combined weight of a sample\<close>











subsection \<open>The window test\<close>
















subsection \<open>Qualities outside 1 to 5\<close>





subsection \<open>Two samples that differ in quality only\<close>

text \<open>
  On exact reals, the weighted mean of two distinct points lies strictly closer to the
  point of the larger weight.
\<close>

lemma closer_to_heavier:
  fixes w1 w2 x1 y1 x2 y2 :: real
  assumes "0 < w1" and "w1 < w2" and "(x1, y1) \<noteq> (x2, y2)"
  shows "sqrt (((x1 * w1 + x2 * w2) / (w1 + w2) - x2) ^ 2
               + ((y1 * w1 + y2 * w2) / (w1 + w2) - y2) ^ 2)
       < sqrt (((x1 * w1 + x2 * w2) / (w1 + w2) - x1) ^ 2
               + ((y1 * w1 + y2 * w2) / (w1 + w2) - y1) ^ 2)"
proof -
  define W where "W = w1 + w2"
  define D where "D = (x1 - x2) ^ 2 + (y1 - y2) ^ 2"
  have W: "0 < W" using assms(1,2) by (simp add: W_def)
  have D: "0 < D"
  proof -
    have "x1 - x2 \<noteq> 0 \<or> y1 - y2 \<noteq> 0" using assms(3) by auto
    then show ?thesis unfolding D_def by (auto simp: sum_power2_gt_zero_iff)
  qed
  have ex2: "(x1 * w1 + x2 * w2) / W - x2 = (x1 - x2) * (w1 / W)"
    using W by (simp add: W_def field_simps)
  have ey2: "(y1 * w1 + y2 * w2) / W - y2 = (y1 - y2) * (w1 / W)"
    using W by (simp add: W_def field_simps)
  have ex1: "(x1 * w1 + x2 * w2) / W - x1 = (x2 - x1) * (w2 / W)"
    using W by (simp add: W_def field_simps)
  have ey1: "(y1 * w1 + y2 * w2) / W - y1 = (y2 - y1) * (w2 / W)"
    using W by (simp add: W_def field_simps)
  have l: "((x1 * w1 + x2 * w2) / W - x2) ^ 2 + ((y1 * w1 + y2 * w2) / W - y2) ^ 2
      = D * (w1 / W) ^ 2"
    unfolding ex2 ey2 D_def by (simp only: power_mult_distrib distrib_right)
  have r: "((x1 * w1 + x2 * w2) / W - x1) ^ 2 + ((y1 * w1 + y2 * w2) / W - y1) ^ 2
      = D * (w2 / W) ^ 2"
  proof -
    have "(x2 - x1) ^ 2 = (x1 - x2) ^ 2" "(y2 - y1) ^ 2 = (y1 - y2) ^ 2"
      by (simp_all add: power2_commute)
    then show ?thesis
      unfolding ex1 ey1 D_def by (simp only: power_mult_distrib distrib_right)
  qed
  have "0 \<le> w1 / W" "w1 / W < w2 / W"
    using assms(1,2) W by (simp_all add: divide_strict_right_mono)
  then have "(w1 / W) ^ 2 < (w2 / W) ^ 2"
    by (intro power_strict_mono) simp_all
  then have "D * (w1 / W) ^ 2 < D * (w2 / W) ^ 2"
    using D by simp
  then show ?thesis
    unfolding W_def [symmetric] l r by (simp only: real_sqrt_less_iff)
qed







end
